theory Spec2Isabelle
  imports Main "HOL-Library.Word"
begin

section \<open>ENTE-TCP: the entropy-aware congestion control module, embedded from the C source\<close>

text \<open>
  The kernel's fixed-width integers are words: \<open>+\<close>, \<open>-\<close> and \<open>*\<close> wrap, \<open>div\<close> is the
  unsigned division, \<open>ucast\<close> is a zero-extending (or truncating) conversion and \<open>scast\<close> a
  sign-extending one. The bit-field flags of \<open>struct ente_tcp\<close> are booleans.
\<close>

type_synonym u16 = "16 word"
type_synonym u32 = "32 word"
type_synonym u64 = "64 word"

subsection \<open>Configuration parameters\<close>

abbreviation (input) ENTROPY_WINDOW_SIZE :: "'a::numeral" where
  "ENTROPY_WINDOW_SIZE \<equiv> 16"
abbreviation (input) ENTROPY_CALC_INTERVAL :: "'a::numeral" where
  "ENTROPY_CALC_INTERVAL \<equiv> 8"
abbreviation (input) HISTOGRAM_BINS :: "'a::numeral" where
  "HISTOGRAM_BINS \<equiv> 16"
abbreviation (input) HIGH_ENTROPY_THRESHOLD :: "'a::numeral" where
  "HIGH_ENTROPY_THRESHOLD \<equiv> 700"
abbreviation (input) LOW_ENTROPY_THRESHOLD :: "'a::numeral" where
  "LOW_ENTROPY_THRESHOLD \<equiv> 400"
abbreviation (input) NOISE_AGGRESSION :: "'a::numeral" where
  "NOISE_AGGRESSION \<equiv> 1500"
abbreviation (input) CONGESTION_CONSERVE :: "'a::numeral" where
  "CONGESTION_CONSERVE \<equiv> 500"
abbreviation (input) NOISE_REDUCTION_FACTOR :: "'a::numeral" where
  "NOISE_REDUCTION_FACTOR \<equiv> 3"
abbreviation (input) CONGESTION_REDUCTION_FACTOR :: "'a::numeral" where
  "CONGESTION_REDUCTION_FACTOR \<equiv> 2"

text \<open>\<open>TCP_INFINITE_SSTHRESH\<close> is the kernel header's constant \<open>0x7fffffff\<close>.\<close>

definition TCP_INFINITE_SSTHRESH :: u32 where
  "TCP_INFINITE_SSTHRESH = 0x7fffffff"

subsection \<open>Data model\<close>

text \<open>
  \<open>struct ente_tcp\<close>, field by field. \<open>rtt_history\<close> is the array of 16 samples; the
  three reserved bits carry no data and are left out.
\<close>

record ente_tcp =
  min_rtt_us :: u32
  prior_cwnd :: u32
  ssthresh :: u32
  rtt_history :: "u16 list"
  history_index :: u16
  history_count :: u16
  shannon_entropy :: u16
  packets_acked :: u16
  rtt_variance :: u32
  avg_rtt_us :: u32
  has_entropy_data :: bool
  in_slow_start :: bool
  is_noise :: bool
  is_congestion :: bool
  loss_event :: bool

text \<open>The fields of the host's \<open>struct tcp_sock\<close> that the module reads or writes.\<close>

record tcp_sock =
  snd_cwnd :: u32
  snd_ssthresh :: u32
  srtt_us :: u32

text \<open>
  The host's window primitives (\<open>tcp_slow_start\<close>, \<open>tcp_cong_avoid_ai\<close>,
  \<open>tcp_reno_cong_avoid\<close>) belong to the kernel, not to the module. The model records which
  primitive \<open>ente_tcp_cong_avoid\<close> calls and with which arguments.
\<close>

datatype cwnd_call =
  No_call
  | Tcp_slow_start u32
  | Tcp_cong_avoid_ai u32 u32
  | Tcp_reno_cong_avoid u32 u32

text \<open>An unsigned division whose divisor is 0 traps in the kernel.\<close>

datatype error = Divide_error

datatype tcp_ca_event =
  CA_EVENT_TX_START
  | CA_EVENT_CWND_RESTART
  | CA_EVENT_COMPLETE_CWR
  | CA_EVENT_LOSS
  | CA_EVENT_ECN_NO_CE
  | CA_EVENT_ECN_IS_CE

datatype tcp_ca_state =
  TCP_CA_Open
  | TCP_CA_Disorder
  | TCP_CA_CWR
  | TCP_CA_Recovery
  | TCP_CA_Loss

text \<open>
  The spec's tagged classification, read off the three flags. \<open>ente_tcp_ssthresh\<close> tests
  \<open>is_noise\<close> first and so does this reading; \<open>flags_ok\<close> says that the two verdict flags
  are not both set, which every state built by the module satisfies.
\<close>

datatype classification_t = NoData | Noise | Congestion | Neutral

definition classification :: "ente_tcp \<Rightarrow> classification_t" where
  "classification ca =
     (if \<not> has_entropy_data ca then NoData
      else if is_noise ca then Noise
      else if is_congestion ca then Congestion
      else Neutral)"

definition flags_ok :: "ente_tcp \<Rightarrow> bool" where
  "flags_ok ca = (\<not> (is_noise ca \<and> is_congestion ca))"

text \<open>
  The ring buffer is in order when the array has its 16 entries, the write index is inside
  it and the count does not exceed it. A C write at an index outside the array would corrupt
  memory; the list update of the model does nothing there, and \<open>reachable_history_ok\<close>
  shows that no reachable state has such an index.
\<close>

definition history_ok :: "ente_tcp \<Rightarrow> bool" where
  "history_ok ca =
     (length (rtt_history ca) = ENTROPY_WINDOW_SIZE
      \<and> history_index ca < ENTROPY_WINDOW_SIZE
      \<and> history_count ca \<le> ENTROPY_WINDOW_SIZE)"

subsection \<open>calculate_entropy\<close>

text \<open>
  \<open>__builtin_clz\<close> on a 32-bit value: the number of zero bits above the highest set bit.
  The C builtin is undefined at 0; the model gives 32 there, and \<open>calculate_entropy\<close> never
  calls it at 0 (see \<open>clz_argument_nonzero\<close>).
\<close>

fun leading_zeros :: "nat \<Rightarrow> u32 \<Rightarrow> nat" where
  "leading_zeros 0 x = 0"
| "leading_zeros (Suc n) x = (if bit x n then 0 else Suc (leading_zeros n x))"

definition builtin_clz :: "u32 \<Rightarrow> u32" where
  "builtin_clz x = of_nat (leading_zeros 32 x)"

text \<open>First loop: minimum and maximum of \<open>rtt_history[0 .. count-1]\<close>.\<close>

definition minmax_step :: "u16 list \<Rightarrow> nat \<Rightarrow> u16 \<times> u16 \<Rightarrow> u16 \<times> u16" where
  "minmax_step h i mm =
     (let min_val = (if h ! i < fst mm then h ! i else fst mm);
          max_val = (if h ! i > snd mm then h ! i else snd mm)
      in (min_val, max_val))"

definition find_minmax :: "u16 list \<Rightarrow> nat \<Rightarrow> u16 \<times> u16" where
  "find_minmax h count = fold (minmax_step h) [0..<count] (h ! 0, h ! 0)"

text \<open>Second loop: the histogram of 16 bins.\<close>

definition bin_of :: "u16 \<Rightarrow> u16 \<Rightarrow> u16 \<Rightarrow> u16" where
  "bin_of v min_val range' =
     (let bin = ucast (((ucast v - ucast min_val :: u32) * (HISTOGRAM_BINS - 1)) div ucast range') :: u16
      in min bin (HISTOGRAM_BINS - 1))"

definition histogram_step :: "u16 list \<Rightarrow> u16 \<Rightarrow> u16 \<Rightarrow> nat \<Rightarrow> u32 list \<Rightarrow> u32 list" where
  "histogram_step h min_val range' i histogram =
     (let bin = unat (bin_of (h ! i) min_val range')
      in histogram[bin := histogram ! bin + 1])"

definition build_histogram :: "u16 list \<Rightarrow> u16 \<Rightarrow> u16 \<Rightarrow> nat \<Rightarrow> u32 list" where
  "build_histogram h min_val range' count =
     fold (histogram_step h min_val range') [0..<count] (replicate HISTOGRAM_BINS 0)"

text \<open>Third loop: the fixed-point accumulation over the bins.\<close>

definition entropy_term :: "u32 \<Rightarrow> u32 \<Rightarrow> u64" where
  "entropy_term hist_i total' =
     (let p = (ucast hist_i * 1000000) div ucast total' :: u64;
          log_p = (if p > 0 then (32 - builtin_clz (ucast (p div 1000))) * 1000 else 0) :: u32
      in (p * ucast log_p) div 1000000)"

definition entropy_step :: "u32 list \<Rightarrow> u32 \<Rightarrow> nat \<Rightarrow> u64 \<Rightarrow> u64" where
  "entropy_step histogram total' i entropy =
     (if histogram ! i > 0 then entropy + entropy_term (histogram ! i) total' else entropy)"

definition accumulate_entropy :: "u32 list \<Rightarrow> u32 \<Rightarrow> u64" where
  "accumulate_entropy histogram total' =
     fold (entropy_step histogram total') [0..<HISTOGRAM_BINS] 0"

definition calculate_entropy :: "ente_tcp \<Rightarrow> u32" where
  "calculate_entropy ca =
     (if history_count ca < 8 then 0
      else
        let count = min (ucast (history_count ca)) ENTROPY_WINDOW_SIZE :: u32;
            mm = find_minmax (rtt_history ca) (unat count);
            min_val = fst mm;
            max_val = snd mm;
            range' = max_val - min_val
        in if range' = 0 then 0
           else
             let histogram = build_histogram (rtt_history ca) min_val range' (unat count);
                 total' = count;
                 entropy = accumulate_entropy histogram total'
             in ucast (min (entropy div 4) 1000))"

subsection \<open>update_rtt_stats\<close>

text \<open>
  \<open>diff\<close> is an \<open>s32\<close>; \<open>diff * diff\<close> is a 32-bit signed multiplication, which wraps
  in the kernel's build (\<open>-fno-strict-overflow\<close>), and the cast to \<open>u64\<close> sign-extends the
  32-bit product.
\<close>

definition sum_step :: "u16 list \<Rightarrow> nat \<Rightarrow> u32 \<Rightarrow> u32" where
  "sum_step h i sum_acc = sum_acc + ucast (h ! i)"

definition variance_step :: "u16 list \<Rightarrow> u32 \<Rightarrow> nat \<Rightarrow> u64 \<Rightarrow> u64" where
  "variance_step h avg i variance_sum =
     (let diff = ucast (h ! i) - avg :: u32
      in variance_sum + scast (diff * diff))"

definition update_rtt_stats :: "ente_tcp \<Rightarrow> ente_tcp" where
  "update_rtt_stats ca =
     (if history_count ca < 4 then ca
      else
        let count = min (ucast (history_count ca)) ENTROPY_WINDOW_SIZE :: u32;
            sum_acc = fold (sum_step (rtt_history ca)) [0..<unat count] 0;
            avg = sum_acc div count;
            variance_sum = fold (variance_step (rtt_history ca) avg) [0..<unat count] 0
        in ca\<lparr>avg_rtt_us := avg * 1000,
               rtt_variance := ucast (variance_sum div ucast count)\<rparr>)"

subsection \<open>The callbacks\<close>

definition ente_tcp_init :: "tcp_sock \<Rightarrow> tcp_sock \<times> ente_tcp" where
  "ente_tcp_init tp =
     (tp\<lparr>snd_ssthresh := TCP_INFINITE_SSTHRESH\<rparr>,
      \<lparr>min_rtt_us = - 1,
       prior_cwnd = snd_cwnd tp,
       ssthresh = snd_ssthresh tp,
       rtt_history = replicate ENTROPY_WINDOW_SIZE 0,
       history_index = 0,
       history_count = 0,
       shannon_entropy = 0,
       packets_acked = 0,
       rtt_variance = 0,
       avg_rtt_us = 0,
       has_entropy_data = False,
       in_slow_start = True,
       is_noise = False,
       is_congestion = False,
       loss_event = False\<rparr>)"

text \<open>Lines 218 to 239 of \<open>ente_tcp_cong_avoid\<close>: counter, minimum RTT, ring buffer.\<close>

definition store_sample :: "tcp_sock \<Rightarrow> ente_tcp \<Rightarrow> u32 \<Rightarrow> ente_tcp" where
  "store_sample tp ca acked =
     (let ca1 = ca\<lparr>packets_acked := ucast ((ucast (packets_acked ca) :: u32) + acked)\<rparr>;
          rtt_us0 = drop_bit 3 (srtt_us tp);
          rtt_us = (if rtt_us0 = 0 then 1 else rtt_us0);
          ca2 = (if rtt_us < min_rtt_us ca1 then ca1\<lparr>min_rtt_us := rtt_us\<rparr> else ca1);
          rtt_ms0 = min (rtt_us div 1000) 65535;
          rtt_ms = (if rtt_ms0 = 0 then 1 else rtt_ms0);
          ca3 = ca2\<lparr>rtt_history := (rtt_history ca2)[unat (history_index ca2) := ucast rtt_ms]\<rparr>;
          ca4 = ca3\<lparr>history_index :=
                  ucast (((ucast (history_index ca3) :: u32) + 1) mod ENTROPY_WINDOW_SIZE)\<rparr>
      in if history_count ca4 < ENTROPY_WINDOW_SIZE
         then ca4\<lparr>history_count := history_count ca4 + 1\<rparr> else ca4)"

text \<open>Lines 242 to 274: the periodic recomputation and the classification.\<close>

definition classify :: "ente_tcp \<Rightarrow> ente_tcp" where
  "classify ca =
     (if shannon_entropy ca > HIGH_ENTROPY_THRESHOLD
      then ca\<lparr>is_noise := True, is_congestion := False\<rparr>
      else if shannon_entropy ca < LOW_ENTROPY_THRESHOLD
      then ca\<lparr>is_noise := False, is_congestion := True\<rparr>
      else ca\<lparr>is_noise := False, is_congestion := False\<rparr>)"

definition recompute :: "ente_tcp \<Rightarrow> ente_tcp" where
  "recompute ca =
     (if packets_acked ca \<ge> ENTROPY_CALC_INTERVAL
      then
        let ca1 = ca\<lparr>shannon_entropy := ucast (calculate_entropy ca)\<rparr>;
            ca2 = update_rtt_stats ca1;
            ca3 = ca2\<lparr>packets_acked := 0, has_entropy_data := True\<rparr>;
            ca4 = classify ca3
        in ca4\<lparr>loss_event := False\<rparr>
      else ca)"

text \<open>Lines 281 to 326: which window primitive is called, and with what.\<close>

definition growth_call :: "tcp_sock \<Rightarrow> ente_tcp \<Rightarrow> u32 \<Rightarrow> u32 \<Rightarrow> error + cwnd_call" where
  "growth_call tp ca ack acked =
     (if in_slow_start ca then
        (if has_entropy_data ca \<and> is_congestion ca then Inr (Tcp_slow_start (acked div 2))
         else if has_entropy_data ca \<and> is_noise ca then Inr (Tcp_slow_start acked)
         else Inr (Tcp_slow_start acked))
      else
        (if has_entropy_data ca \<and> is_congestion ca then
           (if snd_cwnd tp * 1000 = 0 then Inl Divide_error
            else Inr (Tcp_cong_avoid_ai (snd_cwnd tp)
                   (max 1 ((acked * CONGESTION_CONSERVE) div (snd_cwnd tp * 1000)))))
         else if has_entropy_data ca \<and> is_noise ca then
           (if snd_cwnd tp * 1000 = 0 then Inl Divide_error
            else Inr (Tcp_cong_avoid_ai (snd_cwnd tp)
                   (max 1 ((acked * NOISE_AGGRESSION) div (snd_cwnd tp * 1000)))))
         else Inr (Tcp_reno_cong_avoid ack acked)))"

definition ente_tcp_cong_avoid ::
    "tcp_sock \<Rightarrow> ente_tcp \<Rightarrow> u32 \<Rightarrow> u32 \<Rightarrow> error + (ente_tcp \<times> cwnd_call)" where
  "ente_tcp_cong_avoid tp ca ack acked =
     (if acked = 0 then Inr (ca, No_call)
      else
        let ca1 = store_sample tp ca acked;
            ca2 = recompute ca1;
            ca3 = ca2\<lparr>in_slow_start := (snd_cwnd tp < ssthresh ca2)\<rparr>
        in case growth_call tp ca3 ack acked of
             Inl e \<Rightarrow> Inl e
           | Inr call \<Rightarrow> Inr (ca3, call))"

definition ente_tcp_ssthresh :: "tcp_sock \<Rightarrow> ente_tcp \<Rightarrow> ente_tcp \<times> u32" where
  "ente_tcp_ssthresh tp ca =
     (let ca1 = ca\<lparr>loss_event := True\<rparr>;
          reduction_factor =
            (if has_entropy_data ca1 then
               (if is_noise ca1 then NOISE_REDUCTION_FACTOR
                else if is_congestion ca1 then CONGESTION_REDUCTION_FACTOR
                else CONGESTION_REDUCTION_FACTOR)
             else CONGESTION_REDUCTION_FACTOR) :: u32;
          ca2 = ca1\<lparr>ssthresh := max (snd_cwnd tp div reduction_factor) 2\<rparr>;
          ca3 = ca2\<lparr>prior_cwnd := snd_cwnd tp\<rparr>
      in (ca3, ssthresh ca3))"

definition ente_tcp_undo_cwnd :: "tcp_sock \<Rightarrow> ente_tcp \<Rightarrow> tcp_sock \<times> ente_tcp \<times> u32" where
  "ente_tcp_undo_cwnd tp ca =
     (let tp1 = tp\<lparr>snd_cwnd := max (snd_cwnd tp) (prior_cwnd ca)\<rparr>;
          ca1 = ca\<lparr>in_slow_start := (snd_cwnd tp1 < ssthresh ca)\<rparr>
      in (tp1, ca1, max (snd_cwnd tp1) (prior_cwnd ca1)))"

fun ente_tcp_cwnd_event :: "ente_tcp \<Rightarrow> tcp_ca_event \<Rightarrow> ente_tcp" where
  "ente_tcp_cwnd_event ca CA_EVENT_LOSS = ca\<lparr>loss_event := True\<rparr>"
| "ente_tcp_cwnd_event ca CA_EVENT_CWND_RESTART = ca\<lparr>history_count := 0, has_entropy_data := False\<rparr>"
| "ente_tcp_cwnd_event ca _ = ca"

definition ente_tcp_set_state :: "ente_tcp \<Rightarrow> tcp_ca_state \<Rightarrow> ente_tcp" where
  "ente_tcp_set_state ca new_state =
     (if new_state = TCP_CA_Loss then ca\<lparr>loss_event := True\<rparr> else ca)"

subsection \<open>The host's calls as events\<close>

text \<open>
  The callbacks of \<open>ente_tcp_ops\<close> as events. The host owns \<open>struct tcp_sock\<close> and changes
  it between calls, so every event carries the socket fields as they are at that call. A run
  stops at the first trap.
\<close>

datatype event =
  Cong_avoid tcp_sock u32 u32
  | Ssthresh tcp_sock
  | Undo_cwnd tcp_sock
  | Cwnd_event tcp_ca_event
  | Set_state tcp_ca_state

fun handle_event :: "ente_tcp \<Rightarrow> event \<Rightarrow> error + ente_tcp" where
  "handle_event ca (Cong_avoid tp ack acked) =
     (case ente_tcp_cong_avoid tp ca ack acked of
        Inl e \<Rightarrow> Inl e
      | Inr (ca', call) \<Rightarrow> Inr ca')"
| "handle_event ca (Ssthresh tp) = Inr (fst (ente_tcp_ssthresh tp ca))"
| "handle_event ca (Undo_cwnd tp) = Inr (fst (snd (ente_tcp_undo_cwnd tp ca)))"
| "handle_event ca (Cwnd_event ev) = Inr (ente_tcp_cwnd_event ca ev)"
| "handle_event ca (Set_state new_state) = Inr (ente_tcp_set_state ca new_state)"

fun run :: "ente_tcp \<Rightarrow> event list \<Rightarrow> error + ente_tcp" where
  "run ca [] = Inr ca"
| "run ca (e # es) =
     (case handle_event ca e of
        Inl err \<Rightarrow> Inl err
      | Inr ca' \<Rightarrow> run ca' es)"

inductive reachable :: "ente_tcp \<Rightarrow> bool" where
  reachable_init: "reachable (snd (ente_tcp_init tp))"
| reachable_step: "reachable ca \<Longrightarrow> handle_event ca e = Inr ca' \<Longrightarrow> reachable ca'"

definition recompute_due :: "ente_tcp \<Rightarrow> u32 \<Rightarrow> bool" where
  "recompute_due ca acked =
     (ENTROPY_CALC_INTERVAL \<le> (ucast ((ucast (packets_acked ca) :: u32) + acked) :: u16))"

subsection \<open>Concrete sockets, traces and states\<close>

text \<open>
  \<open>tp_ms cwnd ms\<close> is a socket whose smoothed RTT is \<open>ms\<close> milliseconds (\<open>srtt_us\<close> is
  scaled by 8). \<open>noisy_state\<close> is the state after eight acknowledgments alternating between
  5 ms and 50 ms, \<open>noisy_state_next\<close> the state one acknowledgment of 8 segments later, and
  \<open>steady_state\<close> a state holding twelve samples of 10 ms.
\<close>

definition tp_ms :: "u32 \<Rightarrow> u32 \<Rightarrow> tcp_sock" where
  "tp_ms cwnd ms = \<lparr>snd_cwnd = cwnd, snd_ssthresh = TCP_INFINITE_SSTHRESH, srtt_us = 8000 * ms\<rparr>"

definition alternating_acks :: "event list" where
  "alternating_acks =
     [Cong_avoid (tp_ms 10 5) 0 1, Cong_avoid (tp_ms 11 50) 0 1,
      Cong_avoid (tp_ms 12 5) 0 1, Cong_avoid (tp_ms 13 50) 0 1,
      Cong_avoid (tp_ms 14 5) 0 1, Cong_avoid (tp_ms 15 50) 0 1,
      Cong_avoid (tp_ms 16 5) 0 1, Cong_avoid (tp_ms 17 50) 0 1]"

definition noisy_state :: ente_tcp where
  "noisy_state =
     \<lparr>min_rtt_us = 5000, prior_cwnd = 10, ssthresh = 0x7fffffff,
      rtt_history = [5, 50, 5, 50, 5, 50, 5, 50, 0, 0, 0, 0, 0, 0, 0, 0],
      history_index = 8, history_count = 8, shannon_entropy = 1000, packets_acked = 0,
      rtt_variance = 506, avg_rtt_us = 27000,
      has_entropy_data = True, in_slow_start = True, is_noise = True,
      is_congestion = False, loss_event = False\<rparr>"

definition noisy_state_next :: ente_tcp where
  "noisy_state_next =
     \<lparr>min_rtt_us = 5000, prior_cwnd = 10, ssthresh = 0x7fffffff,
      rtt_history = [5, 50, 5, 50, 5, 50, 5, 50, 5, 0, 0, 0, 0, 0, 0, 0],
      history_index = 9, history_count = 9, shannon_entropy = 1000, packets_acked = 0,
      rtt_variance = 500, avg_rtt_us = 25000,
      has_entropy_data = True, in_slow_start = True, is_noise = True,
      is_congestion = False, loss_event = False\<rparr>"

definition steady_state :: ente_tcp where
  "steady_state =
     \<lparr>min_rtt_us = 10000, prior_cwnd = 10, ssthresh = 0x7fffffff,
      rtt_history = [10, 10, 10, 10, 10, 10, 10, 10, 10, 10, 10, 10, 0, 0, 0, 0],
      history_index = 12, history_count = 12, shannon_entropy = 0, packets_acked = 4,
      rtt_variance = 0, avg_rtt_us = 10000,
      has_entropy_data = True, in_slow_start = True, is_noise = False,
      is_congestion = True, loss_event = False\<rparr>"

text \<open>
  \<open>after_loss_state\<close> is \<open>noisy_state\<close> after a loss at window 18 (so \<open>ssthresh\<close> is 6),
  and \<open>in_avoidance_state\<close> the state one acknowledgment of 30 segments later.
  \<open>congested_state\<close> is \<open>steady_state\<close> after a loss at window 20, and
  \<open>congested_state_next\<close> the state one acknowledgment of 10 segments later. \<open>tp_huge\<close>
  has a window whose product with 1000 does not fit 32 bits, \<open>tp_trap\<close> one whose product
  with 1000 is 0 modulo \<open>2 ^ 32\<close>.
\<close>

definition after_loss_state :: ente_tcp where
  "after_loss_state = fst (ente_tcp_ssthresh (tp_ms 18 5) noisy_state)"

definition in_avoidance_state :: ente_tcp where
  "in_avoidance_state =
     \<lparr>min_rtt_us = 5000, prior_cwnd = 18, ssthresh = 6,
      rtt_history = [5, 50, 5, 50, 5, 50, 5, 50, 5, 0, 0, 0, 0, 0, 0, 0],
      history_index = 9, history_count = 9, shannon_entropy = 1000, packets_acked = 0,
      rtt_variance = 500, avg_rtt_us = 25000,
      has_entropy_data = True, in_slow_start = False, is_noise = True,
      is_congestion = False, loss_event = False\<rparr>"

definition congested_state :: ente_tcp where
  "congested_state = fst (ente_tcp_ssthresh (tp_ms 20 10) steady_state)"

definition tp_huge :: tcp_sock where
  "tp_huge = \<lparr>snd_cwnd = 4294968, snd_ssthresh = 10, srtt_us = 80000\<rparr>"

definition tp_trap :: tcp_sock where
  "tp_trap = \<lparr>snd_cwnd = 536870912, snd_ssthresh = 10, srtt_us = 80000\<rparr>"

definition congested_state_next :: ente_tcp where
  "congested_state_next =
     \<lparr>min_rtt_us = 10000, prior_cwnd = 20, ssthresh = 10,
      rtt_history = [10, 10, 10, 10, 10, 10, 10, 10, 10, 10, 10, 10, 10, 0, 0, 0],
      history_index = 13, history_count = 13, shannon_entropy = 0, packets_acked = 0,
      rtt_variance = 0, avg_rtt_us = 10000,
      has_entropy_data = True, in_slow_start = False, is_noise = False,
      is_congestion = True, loss_event = False\<rparr>"

text \<open>
  A first acknowledgment of 8 segments (\<open>first_ack_state\<close> is the state it leaves), and
  seven acknowledgments of one segment, an idle restart and one more acknowledgment
  (\<open>restart_acks\<close>, leaving \<open>restarted_state\<close>).
\<close>

definition restart_acks :: "event list" where
  "restart_acks =
     [Cong_avoid (tp_ms 10 10) 0 1, Cong_avoid (tp_ms 11 10) 0 1,
      Cong_avoid (tp_ms 12 10) 0 1, Cong_avoid (tp_ms 13 10) 0 1,
      Cong_avoid (tp_ms 14 10) 0 1, Cong_avoid (tp_ms 15 10) 0 1,
      Cong_avoid (tp_ms 16 10) 0 1, Cwnd_event CA_EVENT_CWND_RESTART,
      Cong_avoid (tp_ms 17 10) 0 1]"

definition first_ack_state :: ente_tcp where
  "first_ack_state =
     \<lparr>min_rtt_us = 10000, prior_cwnd = 10, ssthresh = 0x7fffffff,
      rtt_history = [10, 0, 0, 0, 0, 0, 0, 0, 0, 0, 0, 0, 0, 0, 0, 0],
      history_index = 1, history_count = 1, shannon_entropy = 0, packets_acked = 0,
      rtt_variance = 0, avg_rtt_us = 0,
      has_entropy_data = True, in_slow_start = True, is_noise = False,
      is_congestion = True, loss_event = False\<rparr>"

definition restarted_state :: ente_tcp where
  "restarted_state =
     \<lparr>min_rtt_us = 10000, prior_cwnd = 10, ssthresh = 0x7fffffff,
      rtt_history = [10, 10, 10, 10, 10, 10, 10, 10, 0, 0, 0, 0, 0, 0, 0, 0],
      history_index = 8, history_count = 1, shannon_entropy = 0, packets_acked = 0,
      rtt_variance = 0, avg_rtt_us = 0,
      has_entropy_data = True, in_slow_start = True, is_noise = False,
      is_congestion = True, loss_event = False\<rparr>"

text \<open>
  Eight acknowledgments of one segment at 10 ms (\<open>ten_ms_acks\<close>) and twelve of them
  (\<open>steady_acks\<close>, which lead from a fresh connection to \<open>steady_state\<close>).
  \<open>stale_state\<close> is the state after \<open>alternating_acks\<close>, an idle restart and
  \<open>ten_ms_acks\<close>: the eight samples stored since the restart sit in slots 8 to 15.
\<close>

definition ten_ms_acks :: "event list" where
  "ten_ms_acks =
     [Cong_avoid (tp_ms 10 10) 0 1, Cong_avoid (tp_ms 11 10) 0 1,
      Cong_avoid (tp_ms 12 10) 0 1, Cong_avoid (tp_ms 13 10) 0 1,
      Cong_avoid (tp_ms 14 10) 0 1, Cong_avoid (tp_ms 15 10) 0 1,
      Cong_avoid (tp_ms 16 10) 0 1, Cong_avoid (tp_ms 17 10) 0 1]"

definition steady_acks :: "event list" where
  "steady_acks =
     ten_ms_acks @
     [Cong_avoid (tp_ms 18 10) 0 1, Cong_avoid (tp_ms 19 10) 0 1,
      Cong_avoid (tp_ms 20 10) 0 1, Cong_avoid (tp_ms 21 10) 0 1]"

definition stale_state :: ente_tcp where
  "stale_state =
     \<lparr>min_rtt_us = 5000, prior_cwnd = 10, ssthresh = 0x7fffffff,
      rtt_history = [5, 50, 5, 50, 5, 50, 5, 50, 10, 10, 10, 10, 10, 10, 10, 10],
      history_index = 0, history_count = 8, shannon_entropy = 1000, packets_acked = 0,
      rtt_variance = 506, avg_rtt_us = 27000,
      has_entropy_data = True, in_slow_start = True, is_noise = True,
      is_congestion = False, loss_event = False\<rparr>"

text \<open>
  Three acknowledgments at 1 ms and one of 5 segments at 65535 ms (\<open>wide_acks\<close>, leaving
  \<open>wide_state\<close>). \<open>mean_squared_deviation\<close> is the exact mean squared deviation of a
  window on unbounded integers, about the truncated mean that the code uses: the value
  that the variance computation is meant to produce.
\<close>

definition wide_acks :: "event list" where
  "wide_acks =
     [Cong_avoid (tp_ms 10 1) 0 1, Cong_avoid (tp_ms 11 1) 0 1,
      Cong_avoid (tp_ms 12 1) 0 1, Cong_avoid (tp_ms 13 65535) 0 5]"

definition wide_state :: ente_tcp where
  "wide_state =
     \<lparr>min_rtt_us = 1000, prior_cwnd = 10, ssthresh = 0x7fffffff,
      rtt_history = [1, 1, 1, 65535, 0, 0, 0, 0, 0, 0, 0, 0, 0, 0, 0, 0],
      history_index = 4, history_count = 4, shannon_entropy = 0, packets_acked = 0,
      rtt_variance = 4026482689, avg_rtt_us = 16384000,
      has_entropy_data = True, in_slow_start = True, is_noise = False,
      is_congestion = True, loss_event = False\<rparr>"

definition mean_squared_deviation :: "int list \<Rightarrow> int" where
  "mean_squared_deviation xs =
     (let avg = sum_list xs div int (length xs)
      in sum_list (map (\<lambda>x. (x - avg) * (x - avg)) xs) div int (length xs))"

section \<open>Properties\<close>

subsection \<open>What each step leaves alone\<close>

lemma run_noisy: "run (snd (ente_tcp_init (tp_ms 10 5))) alternating_acks = Inr noisy_state"
  by code_simp

lemma store_sample_keeps [simp]:
  "shannon_entropy (store_sample tp ca acked) = shannon_entropy ca"
  "has_entropy_data (store_sample tp ca acked) = has_entropy_data ca"
  "is_noise (store_sample tp ca acked) = is_noise ca"
  "is_congestion (store_sample tp ca acked) = is_congestion ca"
  "loss_event (store_sample tp ca acked) = loss_event ca"
  "ssthresh (store_sample tp ca acked) = ssthresh ca"
  "prior_cwnd (store_sample tp ca acked) = prior_cwnd ca"
  "in_slow_start (store_sample tp ca acked) = in_slow_start ca"
  "rtt_variance (store_sample tp ca acked) = rtt_variance ca"
  "avg_rtt_us (store_sample tp ca acked) = avg_rtt_us ca"
  "packets_acked (store_sample tp ca acked) = ucast ((ucast (packets_acked ca) :: u32) + acked)"
  by (simp_all add: store_sample_def Let_def)

lemma store_sample_min_rtt:
  "min_rtt_us (store_sample tp ca acked) =
     min (min_rtt_us ca) (if drop_bit 3 (srtt_us tp) = 0 then 1 else drop_bit 3 (srtt_us tp))"
  by (auto simp add: store_sample_def Let_def min_def)

lemma update_rtt_stats_keeps [simp]:
  "min_rtt_us (update_rtt_stats ca) = min_rtt_us ca"
  "prior_cwnd (update_rtt_stats ca) = prior_cwnd ca"
  "ssthresh (update_rtt_stats ca) = ssthresh ca"
  "rtt_history (update_rtt_stats ca) = rtt_history ca"
  "history_index (update_rtt_stats ca) = history_index ca"
  "history_count (update_rtt_stats ca) = history_count ca"
  "shannon_entropy (update_rtt_stats ca) = shannon_entropy ca"
  "packets_acked (update_rtt_stats ca) = packets_acked ca"
  "has_entropy_data (update_rtt_stats ca) = has_entropy_data ca"
  "in_slow_start (update_rtt_stats ca) = in_slow_start ca"
  "is_noise (update_rtt_stats ca) = is_noise ca"
  "is_congestion (update_rtt_stats ca) = is_congestion ca"
  "loss_event (update_rtt_stats ca) = loss_event ca"
  by (simp_all add: update_rtt_stats_def Let_def)

lemma classify_keeps [simp]:
  "min_rtt_us (classify ca) = min_rtt_us ca"
  "prior_cwnd (classify ca) = prior_cwnd ca"
  "ssthresh (classify ca) = ssthresh ca"
  "rtt_history (classify ca) = rtt_history ca"
  "history_index (classify ca) = history_index ca"
  "history_count (classify ca) = history_count ca"
  "shannon_entropy (classify ca) = shannon_entropy ca"
  "packets_acked (classify ca) = packets_acked ca"
  "rtt_variance (classify ca) = rtt_variance ca"
  "avg_rtt_us (classify ca) = avg_rtt_us ca"
  "has_entropy_data (classify ca) = has_entropy_data ca"
  "in_slow_start (classify ca) = in_slow_start ca"
  "loss_event (classify ca) = loss_event ca"
  by (simp_all add: classify_def)

lemma classify_flags:
  "is_noise (classify ca) = (shannon_entropy ca > 700)"
  "is_congestion (classify ca) = (\<not> shannon_entropy ca > 700 \<and> shannon_entropy ca < 400)"
  by (auto simp add: classify_def)

lemma recompute_keeps [simp]:
  "min_rtt_us (recompute ca) = min_rtt_us ca"
  "prior_cwnd (recompute ca) = prior_cwnd ca"
  "ssthresh (recompute ca) = ssthresh ca"
  "rtt_history (recompute ca) = rtt_history ca"
  "history_index (recompute ca) = history_index ca"
  "history_count (recompute ca) = history_count ca"
  "in_slow_start (recompute ca) = in_slow_start ca"
  by (simp_all add: recompute_def Let_def)

lemma recompute_due_fields:
  assumes "ENTROPY_CALC_INTERVAL \<le> packets_acked ca"
  shows "shannon_entropy (recompute ca) = ucast (calculate_entropy ca)"
    and "packets_acked (recompute ca) = 0"
    and "has_entropy_data (recompute ca)"
    and "\<not> loss_event (recompute ca)"
    and "is_noise (recompute ca) = (shannon_entropy (recompute ca) > 700)"
    and "is_congestion (recompute ca) =
           (\<not> shannon_entropy (recompute ca) > 700 \<and> shannon_entropy (recompute ca) < 400)"
  using assms by (simp_all add: recompute_def Let_def classify_flags)

lemma recompute_not_due: "\<not> ENTROPY_CALC_INTERVAL \<le> packets_acked ca \<Longrightarrow> recompute ca = ca"
  by (simp add: recompute_def)

lemma cong_avoid_Inr:
  assumes "ente_tcp_cong_avoid tp ca ack acked = Inr (ca', call)" and "acked \<noteq> 0"
  shows "ca' = (recompute (store_sample tp ca acked))\<lparr>in_slow_start := snd_cwnd tp < ssthresh ca\<rparr>"
    and "growth_call tp ca' ack acked = Inr call"
  using assms by (auto simp add: ente_tcp_cong_avoid_def Let_def split: sum.splits)

lemma cong_avoid_zero: "ente_tcp_cong_avoid tp ca ack 0 = Inr (ca, No_call)"
  by (simp add: ente_tcp_cong_avoid_def)

lemma ssthresh_keeps [simp]:
  "shannon_entropy (fst (ente_tcp_ssthresh tp ca)) = shannon_entropy ca"
  "min_rtt_us (fst (ente_tcp_ssthresh tp ca)) = min_rtt_us ca"
  "is_noise (fst (ente_tcp_ssthresh tp ca)) = is_noise ca"
  "is_congestion (fst (ente_tcp_ssthresh tp ca)) = is_congestion ca"
  "has_entropy_data (fst (ente_tcp_ssthresh tp ca)) = has_entropy_data ca"
  "rtt_history (fst (ente_tcp_ssthresh tp ca)) = rtt_history ca"
  "history_index (fst (ente_tcp_ssthresh tp ca)) = history_index ca"
  "history_count (fst (ente_tcp_ssthresh tp ca)) = history_count ca"
  by (simp_all add: ente_tcp_ssthresh_def Let_def)

lemma undo_cwnd_keeps [simp]:
  "shannon_entropy (fst (snd (ente_tcp_undo_cwnd tp ca))) = shannon_entropy ca"
  "min_rtt_us (fst (snd (ente_tcp_undo_cwnd tp ca))) = min_rtt_us ca"
  "is_noise (fst (snd (ente_tcp_undo_cwnd tp ca))) = is_noise ca"
  "is_congestion (fst (snd (ente_tcp_undo_cwnd tp ca))) = is_congestion ca"
  "has_entropy_data (fst (snd (ente_tcp_undo_cwnd tp ca))) = has_entropy_data ca"
  "rtt_history (fst (snd (ente_tcp_undo_cwnd tp ca))) = rtt_history ca"
  "history_index (fst (snd (ente_tcp_undo_cwnd tp ca))) = history_index ca"
  "history_count (fst (snd (ente_tcp_undo_cwnd tp ca))) = history_count ca"
  by (simp_all add: ente_tcp_undo_cwnd_def Let_def)

lemma cwnd_event_keeps [simp]:
  "shannon_entropy (ente_tcp_cwnd_event ca ev) = shannon_entropy ca"
  "min_rtt_us (ente_tcp_cwnd_event ca ev) = min_rtt_us ca"
  "is_noise (ente_tcp_cwnd_event ca ev) = is_noise ca"
  "is_congestion (ente_tcp_cwnd_event ca ev) = is_congestion ca"
  "rtt_history (ente_tcp_cwnd_event ca ev) = rtt_history ca"
  "history_index (ente_tcp_cwnd_event ca ev) = history_index ca"
  by (cases ev; simp)+

lemma set_state_keeps [simp]:
  "shannon_entropy (ente_tcp_set_state ca st) = shannon_entropy ca"
  "min_rtt_us (ente_tcp_set_state ca st) = min_rtt_us ca"
  "is_noise (ente_tcp_set_state ca st) = is_noise ca"
  "is_congestion (ente_tcp_set_state ca st) = is_congestion ca"
  "has_entropy_data (ente_tcp_set_state ca st) = has_entropy_data ca"
  "rtt_history (ente_tcp_set_state ca st) = rtt_history ca"
  "history_index (ente_tcp_set_state ca st) = history_index ca"
  "history_count (ente_tcp_set_state ca st) = history_count ca"
  by (simp_all add: ente_tcp_set_state_def)

lemma unat_ucast_le: "unat (ucast (x :: 'a::len word) :: 'b::len word) \<le> unat x"
  by (simp add: unsigned_ucast_eq take_bit_nat_less_eq_self)

lemma calculate_entropy_le: "unat (calculate_entropy ca) \<le> 1000"
proof -
  have "unat (ucast (min x 1000 :: u64) :: u32) \<le> 1000" for x
  proof -
    have "min x 1000 \<le> (1000 :: u64)" by simp
    then have "unat (min x 1000) \<le> 1000" by (simp add: word_le_nat_alt)
    moreover have "unat (ucast (min x 1000 :: u64) :: u32) \<le> unat (min x 1000)"
      by (rule unat_ucast_le)
    ultimately show ?thesis by linarith
  qed
  then show ?thesis by (simp add: calculate_entropy_def Let_def)
qed

lemma stored_entropy_le: "unat (ucast (calculate_entropy ca) :: u16) \<le> 1000"
  using calculate_entropy_le [of ca] unat_ucast_le [of "calculate_entropy ca", where 'b = 16]
  by linarith

lemma recompute_entropy_le:
  "unat (shannon_entropy ca) \<le> 1000 \<Longrightarrow> unat (shannon_entropy (recompute ca)) \<le> 1000"
  by (cases "ENTROPY_CALC_INTERVAL \<le> packets_acked ca")
     (simp_all add: recompute_due_fields stored_entropy_le recompute_not_due)

lemma handle_event_entropy_le:
  assumes "unat (shannon_entropy ca) \<le> 1000" and "handle_event ca e = Inr ca'"
  shows "unat (shannon_entropy ca') \<le> 1000"
proof (cases e)
  case (Cong_avoid tp ack acked)
  show ?thesis
  proof (cases "acked = 0")
    case True
    with assms Cong_avoid show ?thesis by (simp add: cong_avoid_zero)
  next
    case False
    from assms(2) Cong_avoid obtain call where
      "ente_tcp_cong_avoid tp ca ack acked = Inr (ca', call)"
      by (auto split: sum.splits)
    from cong_avoid_Inr(1) [OF this False] assms(1) show ?thesis
      by (simp add: recompute_entropy_le)
  qed
qed (use assms in auto)

lemma reachable_entropy_le: "reachable ca \<Longrightarrow> unat (shannon_entropy ca) \<le> 1000"
proof (induction rule: reachable.induct)
  case (reachable_init tp)
  show ?case by (simp add: ente_tcp_init_def)
next
  case (reachable_step ca e ca')
  then show ?case by (blast intro: handle_event_entropy_le)
qed

lemma reachable_run: "reachable ca \<Longrightarrow> run ca es = Inr ca' \<Longrightarrow> reachable ca'"
proof (induction es arbitrary: ca)
  case Nil
  then show ?case by simp
next
  case (Cons e es)
  then show ?case by (auto split: sum.splits intro: reachable_step)
qed

lemma handle_event_min_rtt:
  assumes "handle_event ca e = Inr ca'"
  shows "min_rtt_us ca' \<le> min_rtt_us ca"
proof (cases e)
  case (Cong_avoid tp ack acked)
  show ?thesis
  proof (cases "acked = 0")
    case True
    with assms Cong_avoid show ?thesis by (simp add: cong_avoid_zero)
  next
    case False
    from assms Cong_avoid obtain call where
      "ente_tcp_cong_avoid tp ca ack acked = Inr (ca', call)"
      by (auto split: sum.splits)
    from cong_avoid_Inr(1) [OF this False] show ?thesis
      by (simp add: store_sample_min_rtt)
  qed
qed (use assms in auto)

lemma run_min_rtt: "run ca es = Inr ca' \<Longrightarrow> min_rtt_us ca' \<le> min_rtt_us ca"
proof (induction es arbitrary: ca)
  case Nil
  then show ?case by simp
next
  case (Cons e es)
  from Cons.prems obtain ca1 where
    h: "handle_event ca e = Inr ca1" and r: "run ca1 es = Inr ca'"
    by (auto split: sum.splits)
  from Cons.IH [OF r] handle_event_min_rtt [OF h] show ?case by simp
qed

lemma fold_upt_Suc: "fold f [0..<Suc n] s = f n (fold f [0..<n] s)"
  by simp

lemma minmax_step_same: "h ! i = a \<Longrightarrow> minmax_step h i (a, a) = (a, a)"
  by (simp add: minmax_step_def)

lemma find_minmax_constant:
  "(\<And>i. i < n \<Longrightarrow> h ! i = h ! 0) \<Longrightarrow> find_minmax h n = (h ! 0, h ! 0)"
proof (induction n)
  case 0
  show ?case by (simp add: find_minmax_def)
next
  case (Suc n)
  have "find_minmax h n = (h ! 0, h ! 0)"
    by (rule Suc.IH) (rule Suc.prems, simp)
  then have ih: "fold (minmax_step h) [0..<n] (h ! 0, h ! 0) = (h ! 0, h ! 0)"
    unfolding find_minmax_def .
  have "h ! n = h ! 0"
    by (rule Suc.prems) simp
  then have "minmax_step h n (h ! 0, h ! 0) = (h ! 0, h ! 0)"
    by (rule minmax_step_same)
  with ih show ?case
    unfolding find_minmax_def by (simp only: fold_upt_Suc)
qed

lemma recompute_flags_ok: "flags_ok ca \<Longrightarrow> flags_ok (recompute ca)"
  by (cases "ENTROPY_CALC_INTERVAL \<le> packets_acked ca")
     (auto simp add: flags_ok_def recompute_due_fields recompute_not_due)

lemma store_sample_flags_ok: "flags_ok (store_sample tp ca acked) = flags_ok ca"
  by (simp add: flags_ok_def)

lemma unat_max: "unat (max a b :: 'a::len word) = max (unat a) (unat b)"
  by (simp add: max_def word_le_nat_alt)

lemma ai_delta_exact:
  fixes a c w :: u32
  assumes "unat a * unat c < 2 ^ 32" and "unat w * 1000 < 2 ^ 32"
  shows "unat (max 1 ((a * c) div (w * 1000))) = max 1 (unat a * unat c div (unat w * 1000))"
proof -
  have "unat (a * c) = unat a * unat c"
    using assms(1) by (simp add: unat_mult_lem [THEN iffD1])
  moreover have "unat (w * 1000) = unat w * 1000"
    using assms(2) by (simp add: unat_mult_lem [THEN iffD1])
  ultimately show ?thesis by (simp add: unat_max unat_div)
qed

lemma growth_call_by_classification:
  assumes "growth_call tp ca ack acked = Inr call" and "flags_ok ca"
  shows "call =
           (if in_slow_start ca
            then Tcp_slow_start (if classification ca = Congestion then acked div 2 else acked)
            else (case classification ca of
                    Congestion \<Rightarrow>
                      Tcp_cong_avoid_ai (snd_cwnd tp)
                        (max 1 ((acked * CONGESTION_CONSERVE) div (snd_cwnd tp * 1000)))
                  | Noise \<Rightarrow>
                      Tcp_cong_avoid_ai (snd_cwnd tp)
                        (max 1 ((acked * NOISE_AGGRESSION) div (snd_cwnd tp * 1000)))
                  | Neutral \<Rightarrow> Tcp_reno_cong_avoid ack acked
                  | NoData \<Rightarrow> Tcp_reno_cong_avoid ack acked))"
  using assms
  by (auto simp add: growth_call_def classification_def flags_ok_def split: if_splits)

lemma growth_call_returns:
  "in_slow_start ca \<or> snd_cwnd tp * 1000 \<noteq> 0 \<Longrightarrow> \<exists>call. growth_call tp ca ack acked = Inr call"
  by (auto simp add: growth_call_def)

lemma growth_call_traps_iff:
  "growth_call tp ca ack acked = Inl Divide_error \<longleftrightarrow>
     \<not> in_slow_start ca \<and> has_entropy_data ca \<and> (is_congestion ca \<or> is_noise ca)
     \<and> snd_cwnd tp * 1000 = 0"
  by (auto simp add: growth_call_def)

lemma cong_avoid_returns:
  assumes "snd_cwnd tp < ssthresh ca \<or> snd_cwnd tp * 1000 \<noteq> 0"
  shows "\<exists>ca' call. ente_tcp_cong_avoid tp ca ack acked = Inr (ca', call)"
proof (cases "acked = 0")
  case True
  then show ?thesis by (simp add: cong_avoid_zero)
next
  case False
  let ?ca3 = "(recompute (store_sample tp ca acked))\<lparr>in_slow_start := snd_cwnd tp < ssthresh ca\<rparr>"
  from assms have "in_slow_start ?ca3 \<or> snd_cwnd tp * 1000 \<noteq> 0" by simp
  from growth_call_returns [OF this] obtain call where "growth_call tp ?ca3 ack acked = Inr call" ..
  with False show ?thesis by (simp add: ente_tcp_cong_avoid_def Let_def)
qed

subsection \<open>Invariants of the reachable states\<close>

lemma handle_event_flags_ok:
  assumes "flags_ok ca" and "handle_event ca e = Inr ca'"
  shows "flags_ok ca'"
proof (cases e)
  case (Cong_avoid tp ack acked)
  show ?thesis
  proof (cases "acked = 0")
    case True
    with assms Cong_avoid show ?thesis by (simp add: cong_avoid_zero)
  next
    case False
    from assms(2) Cong_avoid obtain call where
      "ente_tcp_cong_avoid tp ca ack acked = Inr (ca', call)"
      by (auto split: sum.splits)
    from cong_avoid_Inr(1) [OF this False] have "flags_ok ca' = flags_ok (recompute (store_sample tp ca acked))"
      by (simp add: flags_ok_def)
    with assms(1) show ?thesis
      by (simp add: recompute_flags_ok store_sample_flags_ok)
  qed
qed (use assms in \<open>auto simp add: flags_ok_def\<close>)

lemma reachable_flags_ok: "reachable ca \<Longrightarrow> flags_ok ca"
proof (induction rule: reachable.induct)
  case (reachable_init tp)
  show ?case by (simp add: ente_tcp_init_def flags_ok_def)
next
  case (reachable_step ca e ca')
  then show ?case by (blast intro: handle_event_flags_ok)
qed

lemma next_index_less: "(ucast (((ucast (i :: u16) :: u32) + 1) mod 16) :: u16) < 16"
proof -
  have "unat (((ucast i :: u32) + 1) mod 16) < 16"
    by (simp add: unat_mod)
  then have "unat (ucast (((ucast i :: u32) + 1) mod 16) :: u16) < 16"
    using unat_ucast_le [of "((ucast i :: u32) + 1) mod 16", where 'b = 16] by linarith
  then show ?thesis by (simp add: word_less_nat_alt)
qed

lemma next_count_le: "(c :: u16) < 16 \<Longrightarrow> c + 1 \<le> 16"
  by (simp add: inc_le)

lemma store_sample_history_ok:
  assumes "history_ok ca"
  shows "history_ok (store_sample tp ca acked)"
  using assms next_index_less [of "history_index ca"]
  by (auto simp add: history_ok_def store_sample_def Let_def next_count_le)

lemma handle_event_history_ok:
  assumes "history_ok ca" and "handle_event ca e = Inr ca'"
  shows "history_ok ca'"
proof (cases e)
  case (Cong_avoid tp ack acked)
  show ?thesis
  proof (cases "acked = 0")
    case True
    with assms Cong_avoid show ?thesis by (simp add: cong_avoid_zero)
  next
    case False
    from assms(2) Cong_avoid obtain call where
      "ente_tcp_cong_avoid tp ca ack acked = Inr (ca', call)"
      by (auto split: sum.splits)
    from cong_avoid_Inr(1) [OF this False]
    have "history_ok ca' = history_ok (store_sample tp ca acked)"
      by (simp add: history_ok_def)
    with assms(1) show ?thesis
      by (simp add: store_sample_history_ok)
  qed
next
  case (Cwnd_event ev)
  with assms show ?thesis by (cases ev) (auto simp add: history_ok_def)
qed (use assms in \<open>auto simp add: history_ok_def\<close>)

lemma reachable_history_ok: "reachable ca \<Longrightarrow> history_ok ca"
proof (induction rule: reachable.induct)
  case (reachable_init tp)
  show ?case by (simp add: ente_tcp_init_def history_ok_def)
next
  case (reachable_step ca e ca')
  then show ?case by (blast intro: handle_event_history_ok)
qed

subsection \<open>The argument of the leading-zero count\<close>

lemma histogram_step_length [simp]:
  "length (histogram_step h min_val range' i histogram) = length histogram"
  by (simp add: histogram_step_def Let_def)

lemma unat_Suc_le: "unat (x + 1 :: u32) \<le> Suc (unat x)"
  by (simp add: unat_word_ariths)

lemma histogram_step_bound:
  assumes "\<And>j. j < length histogram \<Longrightarrow> unat (histogram ! j) \<le> k"
    and "j < length histogram"
  shows "unat (histogram_step h min_val range' i histogram ! j) \<le> Suc k"
proof (cases "j = unat (bin_of (h ! i) min_val range')")
  case True
  have "unat (histogram ! j + 1) \<le> Suc (unat (histogram ! j))"
    by (rule unat_Suc_le)
  also have "\<dots> \<le> Suc k"
    using assms by simp
  finally show ?thesis
    using True assms(2) by (simp add: histogram_step_def Let_def)
next
  case False
  then have "histogram_step h min_val range' i histogram ! j = histogram ! j"
    by (simp add: histogram_step_def Let_def)
  with assms show ?thesis by (simp add: le_SucI)
qed

lemma fold_histogram_bound:
  assumes "\<And>j. j < length histogram \<Longrightarrow> unat (histogram ! j) \<le> k"
  shows "length (fold (histogram_step h min_val range') is histogram) = length histogram
         \<and> (\<forall>j < length histogram.
               unat (fold (histogram_step h min_val range') is histogram ! j) \<le> k + length is)"
  using assms
proof (induction "is" arbitrary: histogram k)
  case Nil
  then show ?case by simp
next
  case (Cons i "is")
  let ?h1 = "histogram_step h min_val range' i histogram"
  have "\<And>j. j < length ?h1 \<Longrightarrow> unat (?h1 ! j) \<le> Suc k"
    using histogram_step_bound [of histogram k] Cons.prems by simp
  from Cons.IH [OF this] show ?case by simp
qed

lemma build_histogram_bound:
  assumes "j < HISTOGRAM_BINS"
  shows "unat (build_histogram h min_val range' count ! j) \<le> count"
proof -
  have "\<And>j. j < length (replicate HISTOGRAM_BINS (0 :: u32)) \<Longrightarrow>
          unat (replicate HISTOGRAM_BINS (0 :: u32) ! j) \<le> 0"
    by simp
  from fold_histogram_bound [OF this, of h min_val range' "[0..<count]"] assms
  show ?thesis by (simp add: build_histogram_def)
qed

lemma entropy_term_clz_argument:
  fixes hist_i total' :: u32
  assumes "hist_i \<noteq> 0" and "unat hist_i \<le> 16" and "total' \<noteq> 0" and "unat total' \<le> 16"
  shows "(ucast (((ucast hist_i * 1000000) div ucast total' :: u64) div 1000) :: u32) \<noteq> 0"
proof -
  let ?h = "unat hist_i" and ?t = "unat total'"
  have h: "1 \<le> ?h" and t: "1 \<le> ?t"
    using assms(1,3) by (simp_all add: Suc_le_eq unat_gt_0)
  have uh: "unat (ucast hist_i :: u64) = ?h" and ut: "unat (ucast total' :: u64) = ?t"
    by (simp_all add: unsigned_ucast_eq take_bit_nat_eq_self_iff
        less_trans [OF unsigned_less, where 'b1 = 32])
  have "?h * 1000000 < 2 ^ 64"
    using assms(2) by simp
  then have "unat ((ucast hist_i :: u64) * 1000000) = ?h * 1000000"
    using uh by (simp add: unat_mult_lem [THEN iffD1])
  then have v: "unat ((((ucast hist_i :: u64) * 1000000) div ucast total') div 1000)
                  = ?h * 1000000 div ?t div 1000"
    by (simp add: unat_div ut)
  have "1000000 div 16 \<le> ?h * 1000000 div 16"
    using h by (intro div_le_mono) simp
  also have "\<dots> \<le> ?h * 1000000 div ?t"
    using assms(4) t by (intro div_le_mono2) simp_all
  finally have lo: "62 \<le> ?h * 1000000 div ?t div 1000"
    by simp
  have "?h * 1000000 div ?t \<le> ?h * 1000000"
    by (rule div_le_dividend)
  also have "\<dots> \<le> 16 * 1000000"
    using assms(2) by simp
  finally have hi: "?h * 1000000 div ?t div 1000 < 2 ^ 32"
    by simp
  have "unat (ucast ((((ucast hist_i :: u64) * 1000000) div ucast total') div 1000) :: u32)
          = ?h * 1000000 div ?t div 1000"
    using hi by (simp add: unsigned_ucast_eq v take_bit_nat_eq_self_iff)
  with lo show ?thesis
    by (auto simp add: unat_eq_0 [symmetric] simp del: unat_eq_0)
qed

lemma clz_argument_nonzero:
  fixes count :: u32
  assumes "count \<noteq> 0" and "unat count \<le> ENTROPY_WINDOW_SIZE" and "i < HISTOGRAM_BINS"
    and "build_histogram h min_val range' (unat count) ! i \<noteq> 0"
  shows "(ucast (((ucast (build_histogram h min_val range' (unat count) ! i) * 1000000)
            div ucast count :: u64) div 1000) :: u32) \<noteq> 0"
proof (rule entropy_term_clz_argument)
  have "unat (build_histogram h min_val range' (unat count) ! i) \<le> unat count"
    by (rule build_histogram_bound) (rule assms(3))
  with assms(2) show "unat (build_histogram h min_val range' (unat count) ! i) \<le> 16"
    by simp
qed (use assms in simp_all)

subsection \<open>Where the variance is exact\<close>

text \<open>
  A deviation of at most 46340 squares to less than \<open>2 ^ 31\<close>, so when every sample of the
  window is at most 46340 ms the 32-bit signed product does not wrap and
  \<open>update_rtt_stats\<close> stores the exact mean squared deviation.
\<close>

lemma sum_list_bounds:
  fixes xs :: "int list"
  assumes "\<And>x. x \<in> set xs \<Longrightarrow> 0 \<le> x \<and> x \<le> b"
  shows "0 \<le> sum_list xs \<and> sum_list xs \<le> b * int (length xs)"
  using assms
proof (induction xs)
  case Nil
  show ?case by simp
next
  case (Cons x xs)
  then have "0 \<le> sum_list xs \<and> sum_list xs \<le> b * int (length xs)" and "0 \<le> x" and "x \<le> b"
    by simp_all
  then show ?case by (simp add: algebra_simps)
qed

lemma square_le:
  fixes d :: int
  assumes "- b \<le> d" and "d \<le> b"
  shows "0 \<le> d * d \<and> d * d \<le> b * b"
proof -
  have "\<bar>d\<bar> \<le> b" using assms by simp
  then have "\<bar>d\<bar> * \<bar>d\<bar> \<le> b * b"
    by (intro mult_mono) simp_all
  then show ?thesis by (simp add: abs_mult_self_eq)
qed

lemma uint_ucast_16_32: "uint (ucast (x :: u16) :: u32) = uint x"
  by (simp add: unsigned_ucast_eq take_bit_int_eq_self
      less_trans [OF uint_lt2p, where 'a1 = 16])

lemma uint_ucast_32_64: "uint (ucast (x :: u32) :: u64) = uint x"
  by (simp add: unsigned_ucast_eq take_bit_int_eq_self
      less_trans [OF uint_lt2p, where 'a1 = 32])

lemma signed_take_bit_31_self:
  fixes k :: int
  assumes "- 2147395600 \<le> k" and "k \<le> 2147395600"
  shows "signed_take_bit 31 k = k"
  using assms by (intro signed_take_bit_int_eq_self) simp_all

lemma sint_diff_exact:
  fixes x :: u16 and avg :: u32
  assumes "uint x \<le> 46340" and "uint avg \<le> 46340"
  shows "sint (ucast x - avg :: u32) = uint x - uint avg"
proof -
  have x0: "0 \<le> uint x" and a0: "0 \<le> uint avg"
    by simp_all
  have "signed_take_bit 31 (uint x) = uint x"
    using x0 assms(1) by (intro signed_take_bit_31_self) linarith+
  then have sx: "sint (ucast x :: u32) = uint x"
    by (simp add: signed_ucast_eq)
  have "signed_take_bit 31 (uint avg) = uint avg"
    using a0 assms(2) by (intro signed_take_bit_31_self) linarith+
  then have sa: "sint avg = uint avg"
    by (simp add: sint_uint)
  have "signed_take_bit 31 (uint x - uint avg) = uint x - uint avg"
    using x0 a0 assms by (intro signed_take_bit_31_self) linarith+
  then show ?thesis
    by (simp add: sint_word_ariths sx sa)
qed

lemma scast_square_exact:
  fixes x :: u16 and avg :: u32
  assumes "uint x \<le> 46340" and "uint avg \<le> 46340"
  shows "uint (scast ((ucast x - avg) * (ucast x - avg) :: u32) :: u64)
           = (uint x - uint avg) * (uint x - uint avg)"
proof -
  let ?d = "uint x - uint avg"
  let ?w = "(ucast x - avg) * (ucast x - avg) :: u32"
  have "- 46340 \<le> ?d" and "?d \<le> 46340"
    using assms uint_ge_0 [of x] uint_ge_0 [of avg] by linarith+
  from square_le [OF this] have sq: "0 \<le> ?d * ?d" "?d * ?d \<le> 2147395600"
    by simp_all
  have "sint ?w = signed_take_bit 31 (?d * ?d)"
    by (simp add: sint_word_mult sint_diff_exact [OF assms])
  also have "\<dots> = ?d * ?d"
    using sq by (intro signed_take_bit_31_self) linarith+
  finally have sw: "sint ?w = ?d * ?d" .
  have "uint (scast ?w :: u64) = take_bit 64 (sint ?w)"
    by (simp add: scast_eq uint_word_of_int_eq del: of_int_sint)
  also have "\<dots> = ?d * ?d"
    unfolding sw using sq by (intro take_bit_int_eq_self) simp_all
  finally show ?thesis .
qed

lemma fold_sum_step:
  "uint (fold (sum_step h) [0..<n] 0)
     = sum_list (map (\<lambda>i. uint (h ! i)) [0..<n]) mod 2 ^ 32"
proof (induction n)
  case 0
  show ?case by simp
next
  case (Suc n)
  have "uint (fold (sum_step h) [0..<Suc n] 0)
          = (uint (fold (sum_step h) [0..<n] 0) + uint (h ! n)) mod 2 ^ 32"
    by (simp add: sum_step_def uint_word_ariths uint_ucast_16_32)
  also have "\<dots> = (sum_list (map (\<lambda>i. uint (h ! i)) [0..<n]) + uint (h ! n)) mod 2 ^ 32"
    by (simp only: Suc.IH mod_add_left_eq)
  finally show ?case by simp
qed

lemma fold_variance_step:
  assumes "uint avg \<le> 46340" and "\<And>i. i < n \<Longrightarrow> uint (h ! i) \<le> 46340"
  shows "uint (fold (variance_step h avg) [0..<n] 0)
           = sum_list (map (\<lambda>i. (uint (h ! i) - uint avg) * (uint (h ! i) - uint avg)) [0..<n])
               mod 2 ^ 64"
  using assms(2)
proof (induction n)
  case 0
  show ?case by simp
next
  case (Suc n)
  let ?f = "\<lambda>i. (uint (h ! i) - uint avg) * (uint (h ! i) - uint avg)"
  have ih: "uint (fold (variance_step h avg) [0..<n] 0) = sum_list (map ?f [0..<n]) mod 2 ^ 64"
    by (rule Suc.IH) (rule Suc.prems, simp)
  have "uint (h ! n) \<le> 46340"
    by (rule Suc.prems) simp
  from scast_square_exact [OF this assms(1)]
  have "uint (fold (variance_step h avg) [0..<Suc n] 0)
          = (uint (fold (variance_step h avg) [0..<n] 0) + ?f n) mod 2 ^ 64"
    by (simp add: variance_step_def Let_def uint_word_ariths)
  also have "\<dots> = (sum_list (map ?f [0..<n]) + ?f n) mod 2 ^ 64"
    by (simp only: ih mod_add_left_eq)
  finally show ?case by simp
qed

lemma window_count_bounds:
  fixes hc :: u16
  assumes "4 \<le> hc"
  shows "4 \<le> unat (min (ucast hc) ENTROPY_WINDOW_SIZE :: u32)"
    and "unat (min (ucast hc) ENTROPY_WINDOW_SIZE :: u32) \<le> 16"
proof -
  have "unat (ucast hc :: u32) = unat hc"
    by (simp add: unsigned_ucast_eq take_bit_nat_eq_self_iff
        less_trans [OF unsigned_less, where 'b1 = 16])
  moreover have "4 \<le> unat hc"
    using assms by (simp add: word_le_nat_alt)
  moreover have "unat (min (ucast hc) 16 :: u32) = min (unat (ucast hc :: u32)) 16"
    by (simp add: min_def word_le_nat_alt)
  ultimately show "4 \<le> unat (min (ucast hc) ENTROPY_WINDOW_SIZE :: u32)"
    and "unat (min (ucast hc) ENTROPY_WINDOW_SIZE :: u32) \<le> 16"
    by simp_all
qed

lemma update_rtt_stats_exact:
  assumes hc: "4 \<le> history_count ca"
    and small: "\<And>i. i < unat (min (ucast (history_count ca)) ENTROPY_WINDOW_SIZE :: u32)
                  \<Longrightarrow> uint (rtt_history ca ! i) \<le> 46340"
  shows "uint (rtt_variance (update_rtt_stats ca))
           = mean_squared_deviation
               (map (\<lambda>i. uint (rtt_history ca ! i))
                  [0..<unat (min (ucast (history_count ca)) ENTROPY_WINDOW_SIZE :: u32)])"
proof -
  let ?h = "rtt_history ca"
  let ?count = "min (ucast (history_count ca)) ENTROPY_WINDOW_SIZE :: u32"
  define n where "n = unat ?count"
  define xs where "xs = map (\<lambda>i. uint (?h ! i)) [0..<n]"
  define S where "S = sum_list xs"
  define A where "A = S div int n"
  define f where "f = (\<lambda>i. (uint (?h ! i) - A) * (uint (?h ! i) - A))"
  define V where "V = sum_list (map f [0..<n])"
  let ?sum = "fold (sum_step ?h) [0..<n] 0"
  let ?avg = "?sum div ?count"
  let ?vs = "fold (variance_step ?h ?avg) [0..<n] 0"
  have n4: "4 \<le> int n" and n16: "int n \<le> 16"
    using window_count_bounds [OF hc] unfolding n_def by linarith+
  have cnt: "uint ?count = int n"
    unfolding n_def by (simp only: uint_nat)
  have small': "\<And>i. i < n \<Longrightarrow> uint (?h ! i) \<le> 46340"
    using small unfolding n_def .
  have len: "length xs = n"
    by (simp add: xs_def)
  have "\<And>x. x \<in> set xs \<Longrightarrow> 0 \<le> x \<and> x \<le> 46340"
    using small' by (auto simp add: xs_def)
  then have "0 \<le> sum_list xs \<and> sum_list xs \<le> 46340 * int (length xs)"
    by (rule sum_list_bounds)
  then have S0: "0 \<le> S" and Sn: "S \<le> 46340 * int n"
    by (simp_all only: S_def len)
  have "S < 4294967296"
    using Sn n16 by linarith
  then have "S mod 2 ^ 32 = S"
    using S0 by simp
  then have sum: "uint ?sum = S"
    by (simp only: fold_sum_step S_def xs_def)
  have avg: "uint ?avg = A"
    by (simp only: uint_div sum cnt A_def)
  have A0: "0 \<le> A"
    unfolding A_def using S0 n4 by (simp add: pos_imp_zdiv_nonneg_iff)
  have "S div int n \<le> 46340 * int n div int n"
    using Sn n4 by (intro zdiv_mono1) linarith+
  then have A: "A \<le> 46340"
    unfolding A_def using n4 by simp
  have avg_le: "uint ?avg \<le> 46340"
    using A by (simp only: avg)
  have "uint ?vs = sum_list (map (\<lambda>i. (uint (?h ! i) - uint ?avg) * (uint (?h ! i) - uint ?avg)) [0..<n])
                     mod 2 ^ 64"
    using avg_le small' by (rule fold_variance_step)
  then have Vmod: "uint ?vs = V mod 2 ^ 64"
    by (simp only: avg V_def f_def)
  have "\<And>y. y \<in> set (map f [0..<n]) \<Longrightarrow> 0 \<le> y \<and> y \<le> 2147395600"
  proof -
    fix y
    assume "y \<in> set (map f [0..<n])"
    then obtain i where i: "i < n" and y: "y = f i" by auto
    have "- 46340 \<le> uint (?h ! i) - A" and "uint (?h ! i) - A \<le> 46340"
      using small' [OF i] A A0 uint_ge_0 [of "?h ! i"] by linarith+
    from square_le [OF this] show "0 \<le> y \<and> y \<le> 2147395600"
      by (simp add: y f_def)
  qed
  then have "0 \<le> sum_list (map f [0..<n]) \<and>
             sum_list (map f [0..<n]) \<le> 2147395600 * int (length (map f [0..<n]))"
    by (rule sum_list_bounds)
  then have V0: "0 \<le> V" and Vn: "V \<le> 2147395600 * int n"
    by (simp_all add: V_def)
  have "V < 18446744073709551616"
    using Vn n16 by linarith
  then have "V mod 2 ^ 64 = V"
    using V0 by simp
  then have vs: "uint ?vs = V"
    by (simp only: Vmod)
  have q: "uint (?vs div ucast ?count) = V div int n"
    by (simp only: uint_div vs uint_ucast_32_64 cnt)
  have "V div int n \<le> 2147395600 * int n div int n"
    using Vn n4 by (intro zdiv_mono1) linarith+
  then have q_le: "V div int n \<le> 2147395600"
    using n4 by simp
  have q0: "0 \<le> V div int n"
    using V0 n4 by (simp add: pos_imp_zdiv_nonneg_iff)
  have "uint (ucast (?vs div ucast ?count) :: u32) = take_bit 32 (V div int n)"
    by (simp only: unsigned_ucast_eq q) simp
  also have "\<dots> = V div int n"
    using q0 q_le by (intro take_bit_int_eq_self) simp_all
  finally have r: "uint (ucast (?vs div ucast ?count) :: u32) = V div int n" .
  have not4: "\<not> history_count ca < 4"
    using hc by simp
  have lhs: "rtt_variance (update_rtt_stats ca) = ucast (?vs div ucast ?count)"
    using not4 by (simp add: update_rtt_stats_def Let_def n_def)
  have rhs: "mean_squared_deviation xs = V div int n"
    by (simp add: mean_squared_deviation_def Let_def comp_def xs_def V_def f_def A_def S_def)
  show ?thesis
    using lhs r rhs by (simp only: xs_def n_def)
qed

subsection \<open>The entropy score\<close>

text \<open>
  Claim C1. For every state of the RTT history (any sample count, any contents)
  \<open>calculate_entropy\<close> returns a value in [0, 1000], and the stored \<open>shannon_entropy\<close>
  is in [0, 1000] in every state the module can reach from \<open>ente_tcp_init\<close>.
\<close>

theorem entropy_score_bounded:
  "unat (calculate_entropy ca) \<le> 1000 \<and> (reachable ca \<longrightarrow> unat (shannon_entropy ca) \<le> 1000)"
  by (simp add: calculate_entropy_le reachable_entropy_le)

theorem entropy_score_bounded_witness:
  "reachable noisy_state \<and> unat (calculate_entropy noisy_state) = 1000
   \<and> unat (shannon_entropy noisy_state) \<le> 1000"
proof -
  have r: "reachable noisy_state"
    by (rule reachable_run [OF reachable_init run_noisy])
  have c: "unat (calculate_entropy noisy_state) = 1000"
    by code_simp
  from entropy_score_bounded [of noisy_state] r c show ?thesis by simp
qed

text \<open>
  What \<open>calculate_entropy\<close> does guarantee: it returns 0 when \<open>history_count\<close> is below
  8, and when the array slots \<open>rtt_history[0 .. count-1]\<close> that it scans are all equal.
  These slots are the stored samples only as long as no idle restart has happened.
\<close>

lemma entropy_zero_cases:
  "(history_count ca < 8 \<longrightarrow> calculate_entropy ca = 0)
   \<and> ((\<forall>i < unat (min (ucast (history_count ca)) ENTROPY_WINDOW_SIZE :: u32).
          rtt_history ca ! i = rtt_history ca ! 0)
        \<longrightarrow> calculate_entropy ca = 0)"
proof (intro conjI impI)
  assume "history_count ca < 8"
  then show "calculate_entropy ca = 0" by (simp add: calculate_entropy_def)
next
  let ?n = "unat (min (ucast (history_count ca)) ENTROPY_WINDOW_SIZE :: u32)"
  assume "\<forall>i < ?n. rtt_history ca ! i = rtt_history ca ! 0"
  then have "find_minmax (rtt_history ca) ?n = (rtt_history ca ! 0, rtt_history ca ! 0)"
    by (intro find_minmax_constant) blast
  then show "calculate_entropy ca = 0" by (simp add: calculate_entropy_def Let_def)
qed

lemma entropy_zero_cases_witness:
  "history_count (snd (ente_tcp_init (tp_ms 10 5))) < 8
   \<and> calculate_entropy (snd (ente_tcp_init (tp_ms 10 5))) = 0
   \<and> \<not> history_count steady_state < 8
   \<and> \<not> (\<exists>i < unat (min (ucast (history_count steady_state)) ENTROPY_WINDOW_SIZE :: u32).
            rtt_history steady_state ! i \<noteq> rtt_history steady_state ! 0)
   \<and> calculate_entropy steady_state = 0"
proof -
  have a: "history_count (snd (ente_tcp_init (tp_ms 10 5))) < 8"
    by (simp add: ente_tcp_init_def)
  have n: "unat (min (ucast (history_count steady_state)) ENTROPY_WINDOW_SIZE :: u32) = 12"
    by (simp add: steady_state_def)
  have b: "\<forall>i < unat (min (ucast (history_count steady_state)) ENTROPY_WINDOW_SIZE :: u32).
             rtt_history steady_state ! i = rtt_history steady_state ! 0"
    unfolding n by (simp add: steady_state_def All_less_Suc eval_nat_numeral nth_Cons')
  from entropy_zero_cases [of "snd (ente_tcp_init (tp_ms 10 5))"] entropy_zero_cases [of steady_state] a b
  show ?thesis by (auto simp add: steady_state_def)
qed

text \<open>
  Claim C7 says that the estimator returns 0 whenever fewer than 8 samples are stored and
  whenever all samples of the window are equal. The code departs from the second part after
  an idle restart: \<open>CA_EVENT_CWND_RESTART\<close> resets \<open>history_count\<close> but not
  \<open>history_index\<close>, while \<open>calculate_entropy\<close> scans the slots from 0. After eight
  alternating samples, a restart and eight identical samples of 10 ms, the eight samples
  stored since the restart are in slots 8 to 15 and all equal, the estimator reads the stale
  slots 0 to 7 and returns 1000, and the state is classified Noise.
\<close>

theorem stale_slots_after_restart:
  "run (snd (ente_tcp_init (tp_ms 10 5)))
     (alternating_acks @ Cwnd_event CA_EVENT_CWND_RESTART # ten_ms_acks) = Inr stale_state
   \<and> history_count stale_state = 8
   \<and> history_index stale_state = 0
   \<and> drop 8 (rtt_history stale_state) = replicate 8 10
   \<and> calculate_entropy stale_state = 1000
   \<and> shannon_entropy stale_state = 1000
   \<and> classification stale_state = Noise"
proof -
  have a: "run (snd (ente_tcp_init (tp_ms 10 5)))
             (alternating_acks @ Cwnd_event CA_EVENT_CWND_RESTART # ten_ms_acks) = Inr stale_state"
    by code_simp
  have b: "calculate_entropy stale_state = 1000"
    by code_simp
  have c: "drop 8 (rtt_history stale_state) = replicate 8 10"
    by code_simp
  from a b c show ?thesis
    by (simp add: stale_state_def classification_def)
qed

subsection \<open>Recomputation and classification\<close>

text \<open>
  Claim C5. When an acknowledgment triggers the recomputation (the counter reaches 8), the
  classification left in the state is a function of the score just computed: above 700 it is
  Noise, below 400 Congestion, otherwise Neutral; \<open>loss_event\<close> is cleared and
  \<open>packets_acked\<close> is reset to 0.
\<close>

theorem recompute_classifies:
  assumes "ente_tcp_cong_avoid tp ca ack acked = Inr (ca', call)"
    and "acked \<noteq> 0"
    and "recompute_due ca acked"
  shows "classification ca' =
           (if shannon_entropy ca' > HIGH_ENTROPY_THRESHOLD then Noise
            else if shannon_entropy ca' < LOW_ENTROPY_THRESHOLD then Congestion
            else Neutral)
         \<and> shannon_entropy ca' = ucast (calculate_entropy (store_sample tp ca acked))
         \<and> \<not> loss_event ca'
         \<and> packets_acked ca' = 0"
proof -
  let ?s = "store_sample tp ca acked"
  have due: "ENTROPY_CALC_INTERVAL \<le> packets_acked ?s"
    using assms(3) by (simp add: recompute_due_def)
  have ca': "ca' = (recompute ?s)\<lparr>in_slow_start := snd_cwnd tp < ssthresh ca\<rparr>"
    by (rule cong_avoid_Inr(1) [OF assms(1,2)])
  show ?thesis
    unfolding ca' classification_def
    by (simp add: recompute_due_fields [OF due])
qed

theorem recompute_classifies_witness:
  "ente_tcp_cong_avoid (tp_ms 18 5) noisy_state 0 8 = Inr (noisy_state_next, Tcp_slow_start 8)
   \<and> recompute_due noisy_state 8
   \<and> classification noisy_state_next = Noise
   \<and> shannon_entropy noisy_state_next = 1000
   \<and> \<not> loss_event noisy_state_next
   \<and> packets_acked noisy_state_next = 0"
proof -
  have e: "ente_tcp_cong_avoid (tp_ms 18 5) noisy_state 0 8 = Inr (noisy_state_next, Tcp_slow_start 8)"
    by code_simp
  have d: "recompute_due noisy_state 8"
    by code_simp
  have n: "(8 :: u32) \<noteq> 0" by simp
  from recompute_classifies [OF e n d] e d show ?thesis
    by (simp add: noisy_state_next_def)
qed

text \<open>
  Claim C2 says that while fewer than 8 samples are stored the classification is still NoData
  and growth follows the default. The code departs from it. A first acknowledgment of 8
  segments stores one sample, yet \<open>has_entropy_data\<close> is set with score 0: the
  classification is Congestion and \<open>tcp_slow_start\<close> is given 4, not 8. The same happens
  with acknowledgments of one segment each when an idle restart falls between the seventh
  and the eighth.
\<close>

theorem one_sample_classified_congestion:
  "ente_tcp_cong_avoid (tp_ms 10 10) (snd (ente_tcp_init (tp_ms 10 10))) 0 8
     = Inr (first_ack_state, Tcp_slow_start 4)
   \<and> history_count first_ack_state = 1
   \<and> classification first_ack_state = Congestion
   \<and> run (snd (ente_tcp_init (tp_ms 10 10))) restart_acks = Inr restarted_state
   \<and> history_count restarted_state = 1
   \<and> classification restarted_state = Congestion"
proof -
  have a: "ente_tcp_cong_avoid (tp_ms 10 10) (snd (ente_tcp_init (tp_ms 10 10))) 0 8
             = Inr (first_ack_state, Tcp_slow_start 4)"
    by code_simp
  have b: "run (snd (ente_tcp_init (tp_ms 10 10))) restart_acks = Inr restarted_state"
    by code_simp
  from a b show ?thesis
    by (simp add: first_ack_state_def restarted_state_def classification_def)
qed

subsection \<open>Window growth\<close>

text \<open>
  Where the code follows the growth rule. For an acknowledgment with \<open>acked > 0\<close> in a
  state whose verdict flags are not both set: the call returns whenever the window is below
  \<open>ssthresh\<close> or \<open>snd_cwnd * 1000\<close> is not 0 in 32 bits; whenever it returns, in slow
  start \<open>tcp_slow_start\<close> is given \<open>acked / 2\<close> under Congestion and \<open>acked\<close>
  otherwise, and in congestion avoidance \<open>tcp_cong_avoid_ai\<close> is given the 32-bit value of
  \<open>max 1 (acked * 500 / (snd_cwnd * 1000))\<close> under Congestion and of
  \<open>max 1 (acked * 1500 / (snd_cwnd * 1000))\<close> under Noise, while Neutral and NoData call
  \<open>tcp_reno_cong_avoid\<close>. Each 32-bit value is the exact integer one whenever neither of
  its two products reaches \<open>2 ^ 32\<close>.
\<close>

lemma growth_step_by_classification:
  assumes "acked \<noteq> 0" and "flags_ok ca"
  shows "(snd_cwnd tp < ssthresh ca \<or> snd_cwnd tp * 1000 \<noteq> 0 \<longrightarrow>
            (\<exists>ca' call. ente_tcp_cong_avoid tp ca ack acked = Inr (ca', call)))
         \<and> (\<forall>ca' call. ente_tcp_cong_avoid tp ca ack acked = Inr (ca', call) \<longrightarrow>
              in_slow_start ca' = (snd_cwnd tp < ssthresh ca')
              \<and> call =
                (if in_slow_start ca'
                 then Tcp_slow_start (if classification ca' = Congestion then acked div 2 else acked)
                 else (case classification ca' of
                         Congestion \<Rightarrow>
                           Tcp_cong_avoid_ai (snd_cwnd tp)
                             (max 1 ((acked * CONGESTION_CONSERVE) div (snd_cwnd tp * 1000)))
                       | Noise \<Rightarrow>
                           Tcp_cong_avoid_ai (snd_cwnd tp)
                             (max 1 ((acked * NOISE_AGGRESSION) div (snd_cwnd tp * 1000)))
                       | Neutral \<Rightarrow> Tcp_reno_cong_avoid ack acked
                       | NoData \<Rightarrow> Tcp_reno_cong_avoid ack acked)))
         \<and> unat (acked div 2) = unat acked div 2
         \<and> (unat acked * 500 < 2 ^ 32 \<and> unat (snd_cwnd tp) * 1000 < 2 ^ 32 \<longrightarrow>
              unat (max 1 ((acked * CONGESTION_CONSERVE) div (snd_cwnd tp * 1000)))
                = max 1 (unat acked * 500 div (unat (snd_cwnd tp) * 1000)))
         \<and> (unat acked * 1500 < 2 ^ 32 \<and> unat (snd_cwnd tp) * 1000 < 2 ^ 32 \<longrightarrow>
              unat (max 1 ((acked * NOISE_AGGRESSION) div (snd_cwnd tp * 1000)))
                = max 1 (unat acked * 1500 div (unat (snd_cwnd tp) * 1000)))"
proof (intro conjI allI impI)
  assume "snd_cwnd tp < ssthresh ca \<or> snd_cwnd tp * 1000 \<noteq> 0"
  then show "\<exists>ca' call. ente_tcp_cong_avoid tp ca ack acked = Inr (ca', call)"
    by (rule cong_avoid_returns)
next
  fix ca' call
  assume r: "ente_tcp_cong_avoid tp ca ack acked = Inr (ca', call)"
  let ?s = "recompute (store_sample tp ca acked)"
  have ca': "ca' = ?s\<lparr>in_slow_start := snd_cwnd tp < ssthresh ca\<rparr>"
    by (rule cong_avoid_Inr(1) [OF r assms(1)])
  have call: "growth_call tp ca' ack acked = Inr call"
    by (rule cong_avoid_Inr(2) [OF r assms(1)])
  have "flags_ok ?s"
    using assms(2) by (simp add: recompute_flags_ok store_sample_flags_ok)
  then have ok: "flags_ok ca'"
    by (simp add: ca' flags_ok_def)
  show "in_slow_start ca' = (snd_cwnd tp < ssthresh ca')"
    by (simp add: ca')
  show "call =
          (if in_slow_start ca'
           then Tcp_slow_start (if classification ca' = Congestion then acked div 2 else acked)
           else (case classification ca' of
                   Congestion \<Rightarrow>
                     Tcp_cong_avoid_ai (snd_cwnd tp)
                       (max 1 ((acked * CONGESTION_CONSERVE) div (snd_cwnd tp * 1000)))
                 | Noise \<Rightarrow>
                     Tcp_cong_avoid_ai (snd_cwnd tp)
                       (max 1 ((acked * NOISE_AGGRESSION) div (snd_cwnd tp * 1000)))
                 | Neutral \<Rightarrow> Tcp_reno_cong_avoid ack acked
                 | NoData \<Rightarrow> Tcp_reno_cong_avoid ack acked))"
    by (rule growth_call_by_classification [OF call ok])
next
  show "unat (acked div 2) = unat acked div 2"
    by (simp add: unat_div)
next
  assume "unat acked * 500 < 2 ^ 32 \<and> unat (snd_cwnd tp) * 1000 < 2 ^ 32"
  then have "unat acked * unat (500 :: u32) < 2 ^ 32" and "unat (snd_cwnd tp) * 1000 < 2 ^ 32"
    by simp_all
  from ai_delta_exact [OF this]
  show "unat (max 1 ((acked * CONGESTION_CONSERVE) div (snd_cwnd tp * 1000)))
          = max 1 (unat acked * 500 div (unat (snd_cwnd tp) * 1000))"
    by simp
next
  assume "unat acked * 1500 < 2 ^ 32 \<and> unat (snd_cwnd tp) * 1000 < 2 ^ 32"
  then have "unat acked * unat (1500 :: u32) < 2 ^ 32" and "unat (snd_cwnd tp) * 1000 < 2 ^ 32"
    by simp_all
  from ai_delta_exact [OF this]
  show "unat (max 1 ((acked * NOISE_AGGRESSION) div (snd_cwnd tp * 1000)))
          = max 1 (unat acked * 1500 div (unat (snd_cwnd tp) * 1000))"
    by simp
qed

lemma growth_step_by_classification_witness:
  "(30 :: u32) \<noteq> 0
   \<and> flags_ok after_loss_state
   \<and> snd_cwnd (tp_ms 20 5) * 1000 \<noteq> 0
   \<and> ente_tcp_cong_avoid (tp_ms 20 5) after_loss_state 0 30
       = Inr (in_avoidance_state, Tcp_cong_avoid_ai 20 2)
   \<and> classification in_avoidance_state = Noise
   \<and> \<not> in_slow_start in_avoidance_state
   \<and> unat (30 :: u32) * 1500 < 2 ^ 32 \<and> unat (snd_cwnd (tp_ms 20 5)) * 1000 < 2 ^ 32
   \<and> max 1 (unat (30 :: u32) * 1500 div (unat (snd_cwnd (tp_ms 20 5)) * 1000)) = 2"
proof -
  have e: "ente_tcp_cong_avoid (tp_ms 20 5) after_loss_state 0 30
             = Inr (in_avoidance_state, Tcp_cong_avoid_ai 20 2)"
    by code_simp
  have n: "(30 :: u32) \<noteq> 0" by simp
  have f: "flags_ok after_loss_state" by code_simp
  have c: "classification in_avoidance_state = Noise" by code_simp
  from growth_step_by_classification [OF n f, of "tp_ms 20 5" 0] e n f c show ?thesis
    by (simp add: tp_ms_def in_avoidance_state_def)
qed

text \<open>
  Claim C4 says that in congestion avoidance the increment is
  \<open>max 1 (acked * 500 / (window * 1000))\<close> under Congestion and
  \<open>max 1 (acked * 1500 / (window * 1000))\<close> under Noise, for every acknowledgment with
  \<open>acked > 0\<close>. The code departs from it where a 32-bit product wraps. Twelve
  acknowledgments at 10 ms and a loss at window 20 lead to \<open>congested_state\<close>, classified
  Congestion with \<open>ssthresh\<close> 10. At window 4294968 the divisor \<open>snd_cwnd * 1000\<close> is 704
  in 32 bits, so an acknowledgment of 10 segments passes 7 where the formula gives 1; at
  window 536870912 the divisor is 0 in 32 bits and the division traps.
\<close>

theorem growth_step_wraps_and_traps:
  "run (snd (ente_tcp_init (tp_ms 10 10))) (steady_acks @ [Ssthresh (tp_ms 20 10)])
     = Inr congested_state
   \<and> classification congested_state = Congestion
   \<and> ssthresh congested_state = 10
   \<and> ente_tcp_cong_avoid tp_huge congested_state 0 10
       = Inr (congested_state_next, Tcp_cong_avoid_ai 4294968 7)
   \<and> classification congested_state_next = Congestion
   \<and> \<not> in_slow_start congested_state_next
   \<and> max 1 (unat (10 :: u32) * 500 div (unat (snd_cwnd tp_huge) * 1000)) = 1
   \<and> unat (7 :: u32) \<noteq> max 1 (unat (10 :: u32) * 500 div (unat (snd_cwnd tp_huge) * 1000))
   \<and> ente_tcp_cong_avoid tp_trap congested_state 0 10 = Inl Divide_error"
proof -
  have r: "run (snd (ente_tcp_init (tp_ms 10 10))) (steady_acks @ [Ssthresh (tp_ms 20 10)])
             = Inr congested_state"
    by code_simp
  have k: "classification congested_state = Congestion"
    by code_simp
  have t: "ssthresh congested_state = 10"
    by code_simp
  have e: "ente_tcp_cong_avoid tp_huge congested_state 0 10
             = Inr (congested_state_next, Tcp_cong_avoid_ai 4294968 7)"
    by code_simp
  have c: "classification congested_state_next = Congestion"
    by (simp add: congested_state_next_def classification_def)
  have s: "\<not> in_slow_start congested_state_next"
    by (simp add: congested_state_next_def)
  have m: "max 1 (unat (10 :: u32) * 500 div (unat (snd_cwnd tp_huge) * 1000)) = 1"
    by (simp add: tp_huge_def)
  have d: "ente_tcp_cong_avoid tp_trap congested_state 0 10 = Inl Divide_error"
    by code_simp
  from r k t e c s m d show ?thesis by simp
qed

subsection \<open>The minimum RTT and the idle restart\<close>

text \<open>
  Claim C8, as amended. \<open>min_rtt_us\<close> never increases along any sequence of events after
  \<open>ente_tcp_init\<close> (acknowledgments included), and the idle restart sets
  \<open>history_count\<close> to 0 and the classification to NoData, changing only \<open>history_count\<close>
  and \<open>has_entropy_data\<close>: \<open>min_rtt_us\<close> keeps its value.
\<close>

theorem min_rtt_monotone_restart_keeps:
  "(run ca es = Inr ca' \<longrightarrow> min_rtt_us ca' \<le> min_rtt_us ca)
   \<and> ente_tcp_cwnd_event ca CA_EVENT_CWND_RESTART = ca\<lparr>history_count := 0, has_entropy_data := False\<rparr>
   \<and> history_count (ente_tcp_cwnd_event ca CA_EVENT_CWND_RESTART) = 0
   \<and> classification (ente_tcp_cwnd_event ca CA_EVENT_CWND_RESTART) = NoData
   \<and> min_rtt_us (ente_tcp_cwnd_event ca CA_EVENT_CWND_RESTART) = min_rtt_us ca"
  by (simp add: run_min_rtt classification_def)

theorem min_rtt_monotone_restart_keeps_witness:
  "run (snd (ente_tcp_init (tp_ms 10 5))) alternating_acks = Inr noisy_state
   \<and> min_rtt_us noisy_state \<le> min_rtt_us (snd (ente_tcp_init (tp_ms 10 5)))
   \<and> min_rtt_us (ente_tcp_cwnd_event noisy_state CA_EVENT_CWND_RESTART) = 5000
   \<and> classification (ente_tcp_cwnd_event noisy_state CA_EVENT_CWND_RESTART) = NoData"
  using min_rtt_monotone_restart_keeps [of "snd (ente_tcp_init (tp_ms 10 5))" alternating_acks noisy_state]
    min_rtt_monotone_restart_keeps [of noisy_state "[]" noisy_state] run_noisy
  by (simp add: noisy_state_def ente_tcp_init_def)

text \<open>
  Claim C8 as first stated has the idle restart leave \<open>min_rtt_us\<close> changed. It does
  not: the restart of \<open>noisy_state\<close>, whose minimum is 5000, still has the minimum 5000.
\<close>

theorem restart_keeps_min_rtt_counterexample:
  "min_rtt_us noisy_state = 5000
   \<and> min_rtt_us (ente_tcp_cwnd_event noisy_state CA_EVENT_CWND_RESTART) = 5000
   \<and> \<not> min_rtt_us (ente_tcp_cwnd_event noisy_state CA_EVENT_CWND_RESTART)
         \<noteq> min_rtt_us noisy_state"
  by (simp add: noisy_state_def)

subsection \<open>RTT statistics\<close>

text \<open>
  Claim C6 says that for samples in [1, 65535] the variance is the exact mean squared
  deviation, with no wrap in the squared deviation. The code departs from it: the square is
  a 32-bit signed product, widened only afterwards. With the window 1, 1, 1, 65535 the mean
  is 16384, the deviation 49151 squares to 2415820801, which wraps to a negative 32-bit
  value and is sign-extended: \<open>rtt_variance\<close> becomes 4026482689, where the exact value is
  805257217.
\<close>

theorem variance_wraps_on_wide_window:
  "run (snd (ente_tcp_init (tp_ms 10 1))) wide_acks = Inr wide_state
   \<and> take 4 (rtt_history wide_state) = [1, 1, 1, 65535]
   \<and> history_count wide_state = 4
   \<and> rtt_variance wide_state = 4026482689
   \<and> mean_squared_deviation (map uint (take 4 (rtt_history wide_state))) = 805257217"
proof -
  have a: "run (snd (ente_tcp_init (tp_ms 10 1))) wide_acks = Inr wide_state"
    by code_simp
  have b: "mean_squared_deviation [1, 1, 1, 65535] = 805257217"
    by (simp add: mean_squared_deviation_def)
  from a b show ?thesis
    by (simp add: wide_state_def)
qed

subsection \<open>Loss handling and undo\<close>

text \<open>
  Claim C3. For every state and every current window, \<open>ente_tcp_ssthresh\<close> returns
  \<open>max (window / 3) 2\<close> when the classification is Noise and \<open>max (window / 2) 2\<close> when
  it is Congestion, Neutral or NoData; it sets \<open>loss_event\<close>, stores the returned value as the
  new \<open>ssthresh\<close> and snapshots \<open>prior_cwnd\<close> from the current window. No other field
  changes, and the 32-bit division and maximum agree with the ones on natural numbers.
\<close>

theorem ssthresh_by_classification:
  "ente_tcp_ssthresh tp ca =
     (ca\<lparr>loss_event := True,
         ssthresh := max (snd_cwnd tp div (if classification ca = Noise then 3 else 2)) 2,
         prior_cwnd := snd_cwnd tp\<rparr>,
      max (snd_cwnd tp div (if classification ca = Noise then 3 else 2)) 2)
   \<and> unat (snd (ente_tcp_ssthresh tp ca)) =
       max (unat (snd_cwnd tp) div (if classification ca = Noise then 3 else 2)) 2"
  by (simp add: ente_tcp_ssthresh_def classification_def Let_def unat_div max_def word_le_nat_alt)

text \<open>
  Claim C9. \<open>ente_tcp_undo_cwnd\<close> sets the window to the maximum of the window and
  \<open>prior_cwnd\<close>, recomputes \<open>in_slow_start\<close> as "window below \<open>ssthresh\<close>", and neither the
  resulting window nor the returned value is smaller than the window before the call.
\<close>

theorem undo_cwnd_restores_max:
  "case ente_tcp_undo_cwnd tp ca of (tp', ca', ret) \<Rightarrow>
     snd_cwnd tp' = max (snd_cwnd tp) (prior_cwnd ca)
     \<and> in_slow_start ca' = (snd_cwnd tp' < ssthresh ca')
     \<and> ssthresh ca' = ssthresh ca
     \<and> snd_cwnd tp \<le> snd_cwnd tp'
     \<and> ret = snd_cwnd tp'
     \<and> snd_cwnd tp \<le> ret"
  by (simp add: ente_tcp_undo_cwnd_def Let_def)

text \<open>
  Claim C10. \<open>ente_tcp_undo_cwnd\<close> is idempotent: a second call right after the first
  leaves the socket and the whole module state as the first call left them, and returns the
  same value.
\<close>

theorem undo_cwnd_idempotent:
  "case ente_tcp_undo_cwnd tp ca of (tp1, ca1, ret1) \<Rightarrow>
     ente_tcp_undo_cwnd tp1 ca1 = (tp1, ca1, ret1)"
  by (simp add: ente_tcp_undo_cwnd_def Let_def)

end
